theory Spec2Isabelle
  imports Main "HOL-Library.AList"
begin

section \<open>The patch operation of the release manager (patch.ts)\<close>

text \<open>
  \<^verbatim>\<open>patch\<close> issues nine requests through the plugin API client, one after the
  other, and pushes a human-readable step onto \<^verbatim>\<open>responseSteps\<close> after eight of
  them. Every request is awaited: a rejected request rejects \<^verbatim>\<open>patch\<close> at that
  point, and the steps collected so far are lost with the local variable.

  The remote side is a world \<open>'w\<close> that every request reads and changes. A request
  is a function from the world to its outcome and the new world; \<open>Inl\<close> is the
  rejected promise. The run keeps a log of what was issued, in order.
\<close>

datatype api_error = ApiError string

type_synonym ('w, 'a) request = "'w \<Rightarrow> (api_error + 'a) \<times> 'w"

record ResponseStep =
  message :: string
  secondaryMessage :: "string option"
  link :: "string option"

text \<open>
  The result types of the client are declared in \<^verbatim>\<open>PluginApiClient\<close>; the records
  below carry the fields that \<^verbatim>\<open>patch\<close> reads. The nesting
  \<^verbatim>\<open>branch.commit.commit.tree.sha\<close> is flattened into one field per path.
\<close>

record Project =
  owner :: string
  repo :: string

record LatestRelease =
  targetCommitish :: string
  tagName :: string

record PatchCommit =
  sha :: string
  htmlUrl :: string
  commit_message :: string

record Branch =
  branch_name :: string
  commit_sha :: string
  commit_commit_tree_sha :: string
  links_html :: string

record TempCommit =
  temp_message :: string
  temp_sha :: string

record Merge =
  merge_htmlUrl :: string
  merge_commit_message :: string
  merge_commit_tree_sha :: string

record CherryPickCommit =
  cherry_message :: string
  cherry_sha :: string

record Reference =
  ref :: string
  object_sha :: string

record TagObject =
  tag :: string
  tag_sha :: string

record Release =
  release_name :: string
  release_tagName :: string
  release_htmlUrl :: string

record SuccessArgs =
  updatedReleaseUrl :: string
  updatedReleaseName :: string
  previousTag :: string
  patchedTag :: string
  patchCommitUrl :: string
  patchCommitMessage :: string

text \<open>
  The client, with the argument objects of the source written as curried arguments
  in the order of their properties. \<open>'t\<close> is the type of \<^verbatim>\<open>tagParts\<close>, which
  \<^verbatim>\<open>patch\<close> only passes on.
\<close>

record ('w, 't) PluginApiClient =
  getBranch :: "string \<Rightarrow> string \<Rightarrow> string \<Rightarrow> ('w, Branch) request"
  createTempCommit :: "string \<Rightarrow> string \<Rightarrow> string \<Rightarrow> PatchCommit \<Rightarrow> 't \<Rightarrow> ('w, TempCommit) request"
  forceBranchHeadToTempCommit :: "string \<Rightarrow> string \<Rightarrow> TempCommit \<Rightarrow> string \<Rightarrow> ('w, unit) request"
  merge :: "string \<Rightarrow> string \<Rightarrow> string \<Rightarrow> string \<Rightarrow> ('w, Merge) request"
  createCherryPickCommit :: "string \<Rightarrow> string \<Rightarrow> string \<Rightarrow> string \<Rightarrow> string \<Rightarrow> PatchCommit \<Rightarrow> ('w, CherryPickCommit) request"
  replaceTempCommit :: "string \<Rightarrow> string \<Rightarrow> CherryPickCommit \<Rightarrow> string \<Rightarrow> ('w, Reference) request"
  createTagObject :: "string \<Rightarrow> string \<Rightarrow> string \<Rightarrow> Reference \<Rightarrow> ('w, TagObject) request"
  createReference :: "string \<Rightarrow> string \<Rightarrow> string \<Rightarrow> TagObject \<Rightarrow> ('w, Reference) request"
  updateRelease :: "string \<Rightarrow> string \<Rightarrow> string \<Rightarrow> LatestRelease \<Rightarrow> PatchCommit \<Rightarrow> 't \<Rightarrow> ('w, Release) request"

record ('w, 't) Patch =
  bumpedTag :: string
  latestRelease :: LatestRelease
  pluginApiClient :: "('w, 't) PluginApiClient"
  project :: Project
  selectedPatchCommit :: PatchCommit
  successCb :: "(SuccessArgs \<Rightarrow> ('w, unit) request) option"
  tagParts :: 't

datatype call_name =
  GetBranch | CreateTempCommit | ForceBranchHeadToTempCommit | MergeCall
  | CreateCherryPickCommit | ReplaceTempCommit | CreateTagObject | CreateReference
  | UpdateRelease | SuccessCb

text \<open>One entry of the log: what was called, and whether its promise was fulfilled.\<close>

type_synonym call_log = "(call_name \<times> bool) list"

type_synonym ('w, 'a) run = "'w \<times> call_log \<Rightarrow> (api_error + 'a) \<times> 'w \<times> call_log"

text \<open>\<^verbatim>\<open>xs.push(x)\<close>, on the list passed along.\<close>

definition push :: "'a list \<Rightarrow> 'a \<Rightarrow> 'a list" where
  "push xs x = xs @ [x]"

text \<open>
  \<^verbatim>\<open>const r = await call; rest\<close>: the call is logged with its outcome; a
  rejection ends the run, a fulfilled promise hands its value to the rest.
\<close>

definition await :: "call_name \<Rightarrow> ('w, 'a) request \<Rightarrow> ('a \<Rightarrow> ('w, 'b) run) \<Rightarrow> ('w, 'b) run" where
  "await n req rest = (\<lambda>(w, log).
     case req w of
       (Inl e, w') \<Rightarrow> (Inl e, w', push log (n, False))
     | (Inr r, w') \<Rightarrow> rest r (w', push log (n, True)))"

text \<open>\<^verbatim>\<open>await successCb?.(args)\<close>: nothing happens when no callback was given.\<close>

definition await_optional ::
  "call_name \<Rightarrow> ('a \<Rightarrow> ('w, unit) request) option \<Rightarrow> 'a \<Rightarrow> (unit \<Rightarrow> ('w, 'b) run) \<Rightarrow> ('w, 'b) run" where
  "await_optional n cb a rest =
     (case cb of None \<Rightarrow> rest () | Some f \<Rightarrow> await n (f a) rest)"

definition return_steps :: "'a \<Rightarrow> ('w, 'a) run" where
  "return_steps x = (\<lambda>(w, log). (Inr x, w, log))"

definition quoted :: "string \<Rightarrow> string" where
  "quoted s = [CHR 0x22] @ s @ [CHR 0x22]"

definition patch :: "('w, 't) Patch \<Rightarrow> ('w, ResponseStep list) run" where
  "patch p =
    (let client = pluginApiClient p;
         own = owner (project p);
         rep = repo (project p);
         responseSteps0 = [];
         releaseBranchName = targetCommitish (latestRelease p)
     in
     await GetBranch (getBranch client own rep releaseBranchName) (\<lambda>releaseBranch.
     let releaseBranchSha = commit_sha releaseBranch;
         releaseBranchTree = commit_commit_tree_sha releaseBranch;
         responseSteps1 = push responseSteps0
           (\<lparr>message = ''Fetched release branch '' @ quoted (branch_name releaseBranch),
             secondaryMessage = None,
             link = Some (links_html releaseBranch)\<rparr>)
     in
     await CreateTempCommit
       (createTempCommit client own rep releaseBranchTree (selectedPatchCommit p) (tagParts p))
       (\<lambda>tempCommit.
     let responseSteps2 = push responseSteps1
           (\<lparr>message = ''Created temporary commit'',
             secondaryMessage = Some (''with message '' @ quoted (temp_message tempCommit)),
             link = None\<rparr>)
     in
     await ForceBranchHeadToTempCommit
       (forceBranchHeadToTempCommit client own rep tempCommit releaseBranchName) (\<lambda>_.
     await MergeCall (merge client own rep releaseBranchName (sha (selectedPatchCommit p)))
       (\<lambda>merged.
     let responseSteps3 = push responseSteps2
           (\<lparr>message = ''Merged temporary commit into '' @ quoted releaseBranchName,
             secondaryMessage = Some (''with message '' @ quoted (merge_commit_message merged)),
             link = Some (merge_htmlUrl merged)\<rparr>);
         mergeTree = merge_commit_tree_sha merged
     in
     await CreateCherryPickCommit
       (createCherryPickCommit client own rep (bumpedTag p) mergeTree releaseBranchSha
          (selectedPatchCommit p))
       (\<lambda>cherryPickCommit.
     let responseSteps4 = push responseSteps3
           (\<lparr>message = ''Cherry-picked patch commit to '' @ quoted releaseBranchSha,
             secondaryMessage = Some (''with message '' @ quoted (cherry_message cherryPickCommit)),
             link = None\<rparr>)
     in
     await ReplaceTempCommit
       (replaceTempCommit client own rep cherryPickCommit releaseBranchName)
       (\<lambda>updatedReference.
     let responseSteps5 = push responseSteps4
           (\<lparr>message = ''Updated reference '' @ quoted (ref updatedReference),
             secondaryMessage = None,
             link = None\<rparr>)
     in
     await CreateTagObject (createTagObject client own rep (bumpedTag p) updatedReference)
       (\<lambda>createdTagObject.
     let responseSteps6 = push responseSteps5
           (\<lparr>message = ''Created new tag object'',
             secondaryMessage = Some (''with name '' @ quoted (tag createdTagObject)),
             link = None\<rparr>)
     in
     await CreateReference (createReference client own rep (bumpedTag p) createdTagObject)
       (\<lambda>reference.
     let responseSteps7 = push responseSteps6
           (\<lparr>message = ''Created new reference '' @ quoted (ref reference),
             secondaryMessage = Some (''for tag object '' @ quoted (tag createdTagObject)),
             link = None\<rparr>)
     in
     await UpdateRelease
       (updateRelease client own rep (bumpedTag p) (latestRelease p) (selectedPatchCommit p)
          (tagParts p))
       (\<lambda>updatedRelease.
     let responseSteps8 = push responseSteps7
           (\<lparr>message = ''Updated release '' @ quoted (release_name updatedRelease),
             secondaryMessage = Some (''with tag '' @ release_tagName updatedRelease),
             link = Some (release_htmlUrl updatedRelease)\<rparr>)
     in
     await_optional SuccessCb (successCb p)
       \<lparr>updatedReleaseUrl = release_htmlUrl updatedRelease,
        updatedReleaseName = release_name updatedRelease,
        previousTag = tagName (latestRelease p),
        patchedTag = release_tagName updatedRelease,
        patchCommitUrl = htmlUrl (selectedPatchCommit p),
        patchCommitMessage = commit_message (selectedPatchCommit p)\<rparr>
       (\<lambda>_. return_steps responseSteps8)))))))))))"

text \<open>The GitHub API requests of a log: every entry but the caller's callback.\<close>

definition api_requests :: "call_log \<Rightarrow> call_log" where
  "api_requests log = filter (\<lambda>(n, ok). n \<noteq> SuccessCb) log"

definition all_fulfilled :: "call_log \<Rightarrow> bool" where
  "all_fulfilled log = list_all snd log"

definition nine_requests :: "call_name list" where
  "nine_requests =
     [GetBranch, CreateTempCommit, ForceBranchHeadToTempCommit, MergeCall,
      CreateCherryPickCommit, ReplaceTempCommit, CreateTagObject, CreateReference,
      UpdateRelease]"

text \<open>
  A concrete client on a world without state, every request of which is fulfilled, and
  two callbacks: one that returns and one that throws.
\<close>

definition demo_client :: "(unit, unit) PluginApiClient" where
  "demo_client = \<lparr>
     getBranch = (\<lambda>_ _ b w. (Inr \<lparr>branch_name = b, commit_sha = ''s0'',
       commit_commit_tree_sha = ''t0'', links_html = ''url''\<rparr>, w)),
     createTempCommit = (\<lambda>_ _ _ _ _ w. (Inr \<lparr>temp_message = ''temp'', temp_sha = ''s1''\<rparr>, w)),
     forceBranchHeadToTempCommit = (\<lambda>_ _ _ _ w. (Inr (), w)),
     merge = (\<lambda>_ _ _ _ w. (Inr \<lparr>merge_htmlUrl = ''murl'', merge_commit_message = ''m'',
       merge_commit_tree_sha = ''t1''\<rparr>, w)),
     createCherryPickCommit = (\<lambda>_ _ _ _ _ _ w. (Inr \<lparr>cherry_message = ''c'', cherry_sha = ''s2''\<rparr>, w)),
     replaceTempCommit = (\<lambda>_ _ _ _ w. (Inr \<lparr>ref = ''refs/heads/rc'', object_sha = ''s2''\<rparr>, w)),
     createTagObject = (\<lambda>_ _ t _ w. (Inr \<lparr>tag = t, tag_sha = ''s3''\<rparr>, w)),
     createReference = (\<lambda>_ _ t _ w. (Inr \<lparr>ref = ''refs/tags/'' @ t, object_sha = ''s3''\<rparr>, w)),
     updateRelease = (\<lambda>_ _ t _ _ _ w. (Inr \<lparr>release_name = ''Version 1'', release_tagName = t,
       release_htmlUrl = ''rurl''\<rparr>, w))\<rparr>"

definition demo_patch :: "(SuccessArgs \<Rightarrow> (unit, unit) request) option \<Rightarrow> (unit, unit) Patch" where
  "demo_patch cb = \<lparr>
     bumpedTag = ''rc-1.0.1'',
     latestRelease = \<lparr>targetCommitish = ''rc/1.0'', tagName = ''rc-1.0.0''\<rparr>,
     pluginApiClient = demo_client,
     project = \<lparr>owner = ''o'', repo = ''r''\<rparr>,
     selectedPatchCommit = \<lparr>sha = ''abc'', htmlUrl = ''curl'', commit_message = ''fix''\<rparr>,
     successCb = cb,
     tagParts = ()\<rparr>"

definition callback_ok :: "SuccessArgs \<Rightarrow> (unit, unit) request" where
  "callback_ok a = (\<lambda>w. (Inr (), w))"

definition callback_throws :: "SuccessArgs \<Rightarrow> (unit, unit) request" where
  "callback_throws a = (\<lambda>w. (Inl (ApiError ''callback''), w))"

section \<open>The data model of the catalog\<close>

text \<open>
  The integration test of the catalog backend (the test harness, its progress trackers and
  its scenarios) works on entities and refresh-state items. An entity carries the
  properties the test reads and writes: \<^verbatim>\<open>apiVersion\<close>, \<^verbatim>\<open>kind\<close>,
  \<^verbatim>\<open>metadata.name\<close>, \<^verbatim>\<open>metadata.namespace\<close>, \<^verbatim>\<open>metadata.annotations\<close> and
  \<^verbatim>\<open>spec\<close> (of which the test uses the flag \<^verbatim>\<open>noEmit\<close>).
\<close>

datatype js_error =
  JsError (error_name: string) (error_message: string) (error_cause: "js_error option")

record Entity =
  apiVersion :: string
  kind :: string
  metadata_name :: string
  metadata_namespace :: "string option"
  metadata_annotations :: "(string \<times> string) list"
  spec :: "(string \<times> bool) list"

text \<open>
  Modelled from the spec: the type \<^verbatim>\<open>RefreshStateItem\<close> is declared in
  \<^verbatim>\<open>./database/types\<close>, which is not among the sources. The fields are those of the
  refresh-state item of the data model: a stable handle, the entity reference, the last raw
  input, the last successful output, the errors of the last pass, the location key, the due
  time, the time of the last discovery and the orphan flag. The tracker reads the handle
  and the entity reference only.
\<close>

record RefreshStateItem =
  item_id :: string
  entityRef :: string
  unprocessedEntity :: Entity
  processedEntity :: "Entity option"
  item_errors :: "js_error list"
  locationKey :: "string option"
  nextUpdateAt :: nat
  lastDiscoveredAt :: nat
  orphan :: bool

section \<open>The progress trackers of the test harness\<close>

text \<open>
  \<^verbatim>\<open>WaitingProgressTracker\<close> keeps two JavaScript maps, \<^verbatim>\<open>#counts\<close> by item id and
  \<^verbatim>\<open>#errors\<close> by entity reference, as association lists in insertion order; the
  promise behind \<^verbatim>\<open>wait()\<close>, which is pending (\<open>None\<close>) or resolved with a record of
  errors; and the list \<^verbatim>\<open>#inFlight\<close> of promises, of each of which it matters only
  whether it has been resolved.
\<close>

record WaitingProgressTracker =
  entityRefs :: "string set option"
  promise :: "(string \<times> js_error) list option"
  counts :: "(string \<times> nat) list"
  tracker_errors :: "(string \<times> js_error) list"
  inFlight :: "bool list"

definition new_tracker :: "string set option \<Rightarrow> WaitingProgressTracker" where
  "new_tracker refs =
     \<lparr>entityRefs = refs, promise = None, counts = [], tracker_errors = [], inFlight = []\<rparr>"

text \<open>
  The object \<^verbatim>\<open>processStart\<close> returns: the shared empty tracking of
  \<^verbatim>\<open>NoopProgressTracker\<close>, or closures over the item, over \<^verbatim>\<open>currentCount\<close> as read
  at the start, and over the \<^verbatim>\<open>resolve\<close> of the in-flight promise pushed at the start
  (its index in \<^verbatim>\<open>#inFlight\<close>).
\<close>

datatype Tracking = EmptyTracking | ItemTracking RefreshStateItem nat nat

definition processStart :: "RefreshStateItem \<Rightarrow> WaitingProgressTracker \<Rightarrow> Tracking \<times> WaitingProgressTracker" where
  "processStart item t =
     (if (case entityRefs t of None \<Rightarrow> False | Some refs \<Rightarrow> entityRef item \<notin> refs)
      then (EmptyTracking, t)
      else
        let currentCount = (case map_of (counts t) (item_id item) of None \<Rightarrow> 0 | Some c \<Rightarrow> c)
        in (ItemTracking item currentCount (length (inFlight t)),
            t\<lparr>inFlight := inFlight t @ [False],
              counts := AList.update (item_id item) currentCount (counts t)\<rparr>))"

text \<open>Resolving a promise settles it once; a later call changes nothing.\<close>

definition resolve_promise :: "(string \<times> js_error) list \<Rightarrow> WaitingProgressTracker \<Rightarrow> WaitingProgressTracker" where
  "resolve_promise errs t = (case promise t of None \<Rightarrow> t\<lparr>promise := Some errs\<rparr> | Some _ \<Rightarrow> t)"

definition resolve_inFlight :: "nat \<Rightarrow> WaitingProgressTracker \<Rightarrow> WaitingProgressTracker" where
  "resolve_inFlight k t = t\<lparr>inFlight := (inFlight t)[k := True]\<rparr>"

definition onDone :: "RefreshStateItem \<Rightarrow> nat \<Rightarrow> WaitingProgressTracker \<Rightarrow> WaitingProgressTracker" where
  "onDone item currentCount t =
     (let t1 = t\<lparr>counts := AList.update (item_id item) (currentCount + 1) (counts t)\<rparr>
      in if list_all (\<lambda>c. c \<ge> 2) (map snd (counts t1))
         then resolve_promise (tracker_errors t1) t1
         else t1)"

fun markFailed :: "Tracking \<Rightarrow> js_error \<Rightarrow> WaitingProgressTracker \<Rightarrow> WaitingProgressTracker" where
  "markFailed EmptyTracking error t = t"
| "markFailed (ItemTracking item currentCount k) error t =
     resolve_inFlight k (onDone item currentCount
       (t\<lparr>tracker_errors := AList.update (entityRef item) error (tracker_errors t)\<rparr>))"

fun markProcessorsCompleted :: "Tracking \<Rightarrow> WaitingProgressTracker \<Rightarrow> WaitingProgressTracker" where
  "markProcessorsCompleted h t = t"

fun markSuccessfulWithChanges :: "Tracking \<Rightarrow> WaitingProgressTracker \<Rightarrow> WaitingProgressTracker" where
  "markSuccessfulWithChanges EmptyTracking t = t"
| "markSuccessfulWithChanges (ItemTracking item currentCount k) t =
     resolve_inFlight k
       (t\<lparr>tracker_errors := AList.delete (entityRef item) (tracker_errors t),
          counts := AList.update (item_id item) 0 (counts t)\<rparr>)"

fun markSuccessfulWithErrors :: "Tracking \<Rightarrow> WaitingProgressTracker \<Rightarrow> WaitingProgressTracker" where
  "markSuccessfulWithErrors EmptyTracking t = t"
| "markSuccessfulWithErrors (ItemTracking item currentCount k) t =
     resolve_inFlight k (onDone item currentCount
       (t\<lparr>tracker_errors := AList.delete (entityRef item) (tracker_errors t)\<rparr>))"

fun markSuccessfulWithNoChanges :: "Tracking \<Rightarrow> WaitingProgressTracker \<Rightarrow> WaitingProgressTracker" where
  "markSuccessfulWithNoChanges EmptyTracking t = t"
| "markSuccessfulWithNoChanges (ItemTracking item currentCount k) t =
     resolve_inFlight k (onDone item currentCount t)"

text \<open>\<^verbatim>\<open>wait()\<close> hands out the promise; \<^verbatim>\<open>waitForFinish()\<close> is through once every
  in-flight promise has been resolved.\<close>

definition wait :: "WaitingProgressTracker \<Rightarrow> (string \<times> js_error) list option" where
  "wait t = promise t"

definition waitForFinish :: "WaitingProgressTracker \<Rightarrow> bool" where
  "waitForFinish t = list_all (\<lambda>b. b) (inFlight t)"

subsection \<open>The engine as the tracker's caller\<close>

text \<open>
  The engine calls \<^verbatim>\<open>processStart\<close> for an item and later invokes methods of the
  object it got back. A sequence of such calls, in the order in which they take effect,
  covers any interleaving of items in flight: a call names the tracking object by the
  position of the \<^verbatim>\<open>processStart\<close> that returned it.
\<close>

datatype mark =
  MarkFailed js_error | MarkProcessorsCompleted | MarkSuccessfulWithChanges
  | MarkSuccessfulWithErrors | MarkSuccessfulWithNoChanges

datatype tracker_call = ProcessStart RefreshStateItem | Invoke nat mark

fun invoke :: "mark \<Rightarrow> Tracking \<Rightarrow> WaitingProgressTracker \<Rightarrow> WaitingProgressTracker" where
  "invoke (MarkFailed e) h t = markFailed h e t"
| "invoke MarkProcessorsCompleted h t = markProcessorsCompleted h t"
| "invoke MarkSuccessfulWithChanges h t = markSuccessfulWithChanges h t"
| "invoke MarkSuccessfulWithErrors h t = markSuccessfulWithErrors h t"
| "invoke MarkSuccessfulWithNoChanges h t = markSuccessfulWithNoChanges h t"

type_synonym tracker_state = "WaitingProgressTracker \<times> Tracking list"

fun tracker_step :: "tracker_state \<Rightarrow> tracker_call \<Rightarrow> tracker_state" where
  "tracker_step (t, hs) (ProcessStart item) =
     (case processStart item t of (h, t') \<Rightarrow> (t', hs @ [h]))"
| "tracker_step (t, hs) (Invoke k m) =
     (if k < length hs then (invoke m (hs ! k) t, hs) else (t, hs))"

definition tracker_run :: "string set option \<Rightarrow> tracker_call list \<Rightarrow> tracker_state" where
  "tracker_run refs cs = foldl tracker_step (new_tracker refs, []) cs"

text \<open>
  What the calls say by themselves, without the tracker: the item behind each tracking
  object (none for the empty tracking), and the passes that ended, in order, each with
  the terminal callback that ended it.
\<close>

definition tracked :: "string set option \<Rightarrow> RefreshStateItem \<Rightarrow> bool" where
  "tracked refs item = (case refs of None \<Rightarrow> True | Some rs \<Rightarrow> entityRef item \<in> rs)"

fun terminal :: "mark \<Rightarrow> bool" where
  "terminal MarkProcessorsCompleted = False"
| "terminal m = True"

type_synonym observed = "RefreshStateItem option list \<times> (RefreshStateItem \<times> mark) list"

fun observe :: "string set option \<Rightarrow> observed \<Rightarrow> tracker_call \<Rightarrow> observed" where
  "observe refs (hs, ps) (ProcessStart item) =
     (hs @ [if tracked refs item then Some item else None], ps)"
| "observe refs (hs, ps) (Invoke k m) =
     (if k < length hs \<and> terminal m
      then (case hs ! k of None \<Rightarrow> (hs, ps) | Some item \<Rightarrow> (hs, ps @ [(item, m)]))
      else (hs, ps))"

definition started :: "string set option \<Rightarrow> tracker_call list \<Rightarrow> RefreshStateItem list" where
  "started refs cs = List.map_filter (\<lambda>h. h) (fst (foldl (observe refs) ([], []) cs))"

definition passes :: "string set option \<Rightarrow> tracker_call list \<Rightarrow> (RefreshStateItem \<times> mark) list" where
  "passes refs cs = snd (foldl (observe refs) ([], []) cs)"

text \<open>The number of passes of the item with a given id that have ended.\<close>

definition completed :: "string \<Rightarrow> (RefreshStateItem \<times> mark) list \<Rightarrow> nat" where
  "completed i ps = length (filter (\<lambda>(item, m). item_id item = i) ps)"

text \<open>The same by entity reference, the key of the tracked set.\<close>

definition completed_ref :: "string \<Rightarrow> (RefreshStateItem \<times> mark) list \<Rightarrow> nat" where
  "completed_ref r ps = length (filter (\<lambda>(item, m). entityRef item = r) ps)"

text \<open>
  \<^verbatim>\<open>TestHarness.process\<close>: it installs a fresh waiting tracker, starts the engine, awaits
  \<^verbatim>\<open>wait()\<close>, stops the engine and awaits \<^verbatim>\<open>waitForFinish()\<close>; then it returns the
  errors that \<^verbatim>\<open>wait()\<close> resolved with. Here \<open>cs\<close> are the calls the engine makes on
  the tracker from its start until it has come to rest after the stop. The result is
  \<open>None\<close> when \<^verbatim>\<open>process\<close> does not return: one of its two awaits stays pending.
\<close>

definition process :: "string set option \<Rightarrow> tracker_call list \<Rightarrow> (string \<times> js_error) list option" where
  "process refs cs =
     (let tracker = fst (tracker_run refs cs)
      in case wait tracker of
           None \<Rightarrow> None
         | Some errors \<Rightarrow> if waitForFinish tracker then Some errors else None)"

text \<open>The entities and items of the scenarios, by name.\<close>

definition mkEntity :: "string \<Rightarrow> Entity" where
  "mkEntity n =
     \<lparr>apiVersion = ''backstage.io/v1alpha1'', kind = ''Component'', metadata_name = n,
      metadata_namespace = None,
      metadata_annotations =
        [(''backstage.io/managed-by-location'', ''url:.''),
         (''backstage.io/managed-by-origin-location'', ''url:.'')],
      spec = []\<rparr>"

definition demo_item :: "string \<Rightarrow> RefreshStateItem" where
  "demo_item n =
     \<lparr>item_id = ''id-'' @ n, entityRef = ''component:default/'' @ n,
      unprocessedEntity = mkEntity n, processedEntity = None, item_errors = [],
      locationKey = None, nextUpdateAt = 0, lastDiscoveredAt = 0, orphan = False\<rparr>"

definition two_quiet_passes :: "tracker_call list" where
  "two_quiet_passes =
     [ProcessStart (demo_item ''a''), Invoke 0 MarkSuccessfulWithNoChanges,
      ProcessStart (demo_item ''a''), Invoke 1 MarkSuccessfulWithNoChanges]"

text \<open>
  How the tracker and the calls go together: the tracking objects handed out are those of
  the started items; the count a tracking object captured, and every count in
  \<^verbatim>\<open>#counts\<close>, is at most the number of passes of that item that have ended; and the
  keys of \<^verbatim>\<open>#counts\<close> are the ids of the started items.
\<close>

fun handle_item :: "Tracking \<Rightarrow> RefreshStateItem option" where
  "handle_item EmptyTracking = None"
| "handle_item (ItemTracking item c j) = Some item"

fun handle_bound :: "(RefreshStateItem \<times> mark) list \<Rightarrow> Tracking \<Rightarrow> bool" where
  "handle_bound ps EmptyTracking = True"
| "handle_bound ps (ItemTracking item c j) = (c \<le> completed (item_id item) ps)"

definition consistent :: "tracker_state \<Rightarrow> observed \<Rightarrow> bool" where
  "consistent s ob = (case s of (t, hs) \<Rightarrow> case ob of (his, ps) \<Rightarrow>
     his = map handle_item hs \<and>
     (\<forall>h \<in> set hs. handle_bound ps h) \<and>
     (\<forall>(i, c) \<in> set (counts t). c \<le> completed i ps) \<and>
     fst ` set (counts t) = item_id ` set (List.map_filter (\<lambda>h. h) his))"










section \<open>The processing store and the stitcher\<close>

text \<open>
  Modelled from the spec: the processing store (\<^verbatim>\<open>DefaultProcessingDatabase\<close>), the
  stitcher (\<^verbatim>\<open>Stitcher\<close>) and \<^verbatim>\<open>stringifyEntityRef\<close> are imported by the test harness
  and are not among the sources. What follows renders the design of the spec: its data
  model (section 3) and the contracts of the store and of the stitcher (sections 4.1 and
  4.4). The harness itself is in the sources and is modelled from them.
\<close>

subsection \<open>Entity references\<close>

text \<open>
  Modelled from the spec: an entity reference is the triple of kind, namespace and name.
  The harness keys its output by \<^verbatim>\<open>stringifyEntityRef\<close>; its scenarios expect the key
  \<^verbatim>\<open>component:default/test\<close> for kind \<^verbatim>\<open>Component\<close>, no namespace and name
  \<^verbatim>\<open>test\<close>: lower case (here of the ASCII letters), with the namespace \<^verbatim>\<open>default\<close>
  when none is given.
\<close>

definition lower_char :: "char \<Rightarrow> char" where
  "lower_char c =
     (case map_of (zip ''ABCDEFGHIJKLMNOPQRSTUVWXYZ'' ''abcdefghijklmnopqrstuvwxyz'') c of
        None \<Rightarrow> c | Some l \<Rightarrow> l)"

definition stringifyEntityRef :: "Entity \<Rightarrow> string" where
  "stringifyEntityRef e =
     map lower_char (kind e) @ '':'' @
     map lower_char (case metadata_namespace e of None \<Rightarrow> ''default'' | Some n \<Rightarrow> n) @ ''/'' @
     map lower_char (metadata_name e)"

subsection \<open>The processing store\<close>

text \<open>
  Modelled from the spec (sections 3 and 6): the refresh-state items, one per entity
  reference, in insertion order; who claims which references (a provider, or an emitting
  parent by its reference); the relation edges by the reference of the entity that asserts
  them, each a target and a type; the materialized entities by reference; and the time.
\<close>

datatype claimant = Provider string | Parent string

record StatusItem =
  status_level :: string
  status_type :: string
  status_message :: string
  status_error :: "js_error option"

record MaterializedEntity =
  sourceEntity :: Entity
  relations :: "(string \<times> string \<times> string) list"
  status :: "StatusItem list"

record Store =
  items :: "RefreshStateItem list"
  claims :: "(claimant \<times> string list) list"
  edges :: "(string \<times> (string \<times> string) list) list"
  materialized :: "(string \<times> MaterializedEntity) list"
  now :: nat

definition empty_store :: Store where
  "empty_store = \<lparr>items = [], claims = [], edges = [], materialized = [], now = 0\<rparr>"

definition find_item :: "string \<Rightarrow> Store \<Rightarrow> RefreshStateItem option" where
  "find_item r st = find (\<lambda>i. entityRef i = r) (items st)"

definition update_item :: "string \<Rightarrow> (RefreshStateItem \<Rightarrow> RefreshStateItem) \<Rightarrow> Store \<Rightarrow> Store" where
  "update_item r f st = st\<lparr>items := map (\<lambda>i. if entityRef i = r then f i else i) (items st)\<rparr>"

text \<open>
  Modelled from the spec (3 and 4.1): \<^verbatim>\<open>upsertItem(entityRef, rawEntity, locationKey)\<close>
  answers accepted or rejected with a conflict. A mutation is rejected when the item
  exists with a non-null location key and the mutation comes with another one; the store
  is then left as it was. The spec does not say what becomes of a mutation without a key
  for an item that has one: here it is rejected as well. Otherwise the raw entity and the
  key are written, and the item is due now when the raw entity is new or has changed.
\<close>

datatype upsert_result = Accepted | Rejected

definition upsertItem :: "string \<Rightarrow> Entity \<Rightarrow> string option \<Rightarrow> Store \<Rightarrow> upsert_result \<times> Store" where
  "upsertItem r raw key st =
     (case find_item r st of
        None \<Rightarrow>
          (Accepted,
           st\<lparr>items := items st @
             [\<lparr>item_id = ''id:'' @ r, entityRef = r, unprocessedEntity = raw,
               processedEntity = None, item_errors = [], locationKey = key,
               nextUpdateAt = now st, lastDiscoveredAt = now st, orphan = False\<rparr>]\<rparr>)
      | Some item \<Rightarrow>
          (case locationKey item of
             Some l1 \<Rightarrow>
               if key \<noteq> Some l1 then (Rejected, st)
               else (Accepted, update_item r (\<lambda>i. i\<lparr>unprocessedEntity := raw,
                       nextUpdateAt := (if unprocessedEntity i = raw then nextUpdateAt i else now st),
                       lastDiscoveredAt := now st\<rparr>) st)
           | None \<Rightarrow>
               (Accepted, update_item r (\<lambda>i. i\<lparr>unprocessedEntity := raw, locationKey := key,
                  nextUpdateAt := (if unprocessedEntity i = raw then nextUpdateAt i else now st),
                  lastDiscoveredAt := now st\<rparr>) st)))"

text \<open>
  A batch of entities from one claimant: each is upserted in turn, and the claimant then
  claims exactly the references that were accepted. What it claimed before and no longer
  claims has become a candidate orphan.
\<close>

fun upsert_all :: "(Entity \<times> string option) list \<Rightarrow> Store \<Rightarrow> string list \<times> Store" where
  "upsert_all [] st = ([], st)"
| "upsert_all ((e, key) # es) st =
     (case upsertItem (stringifyEntityRef e) e key st of
        (Accepted, st1) \<Rightarrow>
          (case upsert_all es st1 of (rs, st2) \<Rightarrow> (stringifyEntityRef e # rs, st2))
      | (Rejected, st1) \<Rightarrow> upsert_all es st1)"

definition claim_all :: "claimant \<Rightarrow> (Entity \<times> string option) list \<Rightarrow> Store \<Rightarrow> Store" where
  "claim_all c es st =
     (case upsert_all es st of
        (rs, st1) \<Rightarrow> st1\<lparr>claims := AList.update c rs (claims st1)\<rparr>)"

text \<open>
  Modelled from the spec (6): a full mutation of a provider replaces everything the
  provider claimed before.
\<close>

definition applyMutation_full :: "string \<Rightarrow> (Entity \<times> string option) list \<Rightarrow> Store \<Rightarrow> Store" where
  "applyMutation_full provider es st = claim_all (Provider provider) es st"

subsection \<open>The stitcher\<close>

text \<open>
  Modelled from the spec (3, 4.4 and 7): \<^verbatim>\<open>stitch(entityRef)\<close> recomputes the
  materialized entity from the refresh-state item and the relation edges that come in to
  the reference: the last successful output, with the orphan marker among its annotations
  when the item is flagged, the incoming relations, and one status item per error of the
  item. An item that has no successful output yet has no materialized entity. The marker
  and the status item are written as the scenarios of the harness read them.
\<close>

definition status_of_error :: "js_error \<Rightarrow> StatusItem" where
  "status_of_error e =
     \<lparr>status_level = ''error'', status_type = ''backstage.io/catalog-processing'',
      status_message = error_name e @ '': '' @ error_message e,
      status_error = Some e\<rparr>"

definition incoming :: "string \<Rightarrow> Store \<Rightarrow> (string \<times> string \<times> string) list" where
  "incoming r st =
     concat (map (\<lambda>(src, es). map (\<lambda>(tgt, ty). (src, tgt, ty)) (filter (\<lambda>(tgt, ty). tgt = r) es))
       (edges st))"

definition mark_orphan :: "bool \<Rightarrow> Entity \<Rightarrow> Entity" where
  "mark_orphan flag e =
     (if flag
      then e\<lparr>metadata_annotations := AList.update ''backstage.io/orphan'' ''true'' (metadata_annotations e)\<rparr>
      else e)"

definition materialize :: "string \<Rightarrow> Store \<Rightarrow> MaterializedEntity option" where
  "materialize r st =
     (case find_item r st of
        None \<Rightarrow> None
      | Some item \<Rightarrow>
          (case processedEntity item of
             None \<Rightarrow> None
           | Some e \<Rightarrow>
               Some \<lparr>sourceEntity = mark_orphan (orphan item) e,
                     relations = incoming r st,
                     status = map status_of_error (item_errors item)\<rparr>))"

definition stitch :: "string \<Rightarrow> Store \<Rightarrow> Store" where
  "stitch r st =
     (case materialize r st of
        None \<Rightarrow> st\<lparr>materialized := AList.delete r (materialized st)\<rparr>
      | Some m \<Rightarrow> st\<lparr>materialized := AList.update r m (materialized st)\<rparr>)"

subsection \<open>The test harness on the store\<close>

text \<open>
  \<^verbatim>\<open>setInputEntities\<close> of the harness applies a full mutation of its provider, whose
  name is \<^verbatim>\<open>test\<close>.
\<close>

definition setInputEntities :: "(Entity \<times> string option) list \<Rightarrow> Store \<Rightarrow> Store" where
  "setInputEntities entities st = applyMutation_full ''test'' entities st"

text \<open>A store that holds the entity \<open>b\<close> under the location key \<^verbatim>\<open>loc\<close>.\<close>

definition store_b :: Store where
  "store_b = setInputEntities [(mkEntity ''b'', Some ''loc'')] empty_store"

definition item_b :: RefreshStateItem where
  "item_b =
     \<lparr>item_id = ''id:component:default/b'', entityRef = ''component:default/b'',
      unprocessedEntity = mkEntity ''b'', processedEntity = None, item_errors = [],
      locationKey = Some ''loc'', nextUpdateAt = 0, lastDiscoveredAt = 0, orphan = False\<rparr>"

text \<open>
  A store in which \<open>b\<close> has been processed: its item holds an output, an error and the
  orphan flag, and the entity \<open>a\<close> asserts a relation to it and one to another entity.
  And that store some time after \<open>b\<close> was stitched: the time has moved on, the item of
  \<open>a\<close> has been rescheduled, \<open>b\<close> asserts a relation of its own, and \<open>a\<close> has been
  stitched; the item of \<open>b\<close> and the edges that come in to it are what they were.
\<close>

definition item_a_done :: RefreshStateItem where
  "item_a_done =
     \<lparr>item_id = ''id:component:default/a'', entityRef = ''component:default/a'',
      unprocessedEntity = mkEntity ''a'', processedEntity = Some (mkEntity ''a''),
      item_errors = [], locationKey = Some ''loc'', nextUpdateAt = 0, lastDiscoveredAt = 0,
      orphan = False\<rparr>"

definition item_b_done :: RefreshStateItem where
  "item_b_done =
     \<lparr>item_id = ''id:component:default/b'', entityRef = ''component:default/b'',
      unprocessedEntity = mkEntity ''b'', processedEntity = Some (mkEntity ''b''),
      item_errors = [JsError ''Error'' ''NOPE'' None], locationKey = Some ''loc'',
      nextUpdateAt = 0, lastDiscoveredAt = 0, orphan = True\<rparr>"

definition store_ab :: Store where
  "store_ab =
     \<lparr>items = [item_a_done, item_b_done],
      claims = [(Provider ''test'', [''component:default/a''])],
      edges = [(''component:default/a'',
                [(''component:default/b'', ''ownerOf''), (''component:default/c'', ''ownerOf'')])],
      materialized = [], now = 0\<rparr>"

definition store_ab_later :: Store where
  "store_ab_later =
     stitch ''component:default/a''
       ((update_item ''component:default/a'' (\<lambda>i. i\<lparr>nextUpdateAt := 9\<rparr>)
           (stitch ''component:default/b'' store_ab))
        \<lparr>edges := edges store_ab @ [(''component:default/b'', [(''component:default/a'', ''ownedBy'')])],
         now := 5\<rparr>)"

definition materialized_b :: MaterializedEntity where
  "materialized_b =
     \<lparr>sourceEntity = (mkEntity ''b'')\<lparr>metadata_annotations :=
        [(''backstage.io/managed-by-location'', ''url:.''),
         (''backstage.io/managed-by-origin-location'', ''url:.''),
         (''backstage.io/orphan'', ''true'')]\<rparr>,
      relations = [(''component:default/a'', ''component:default/b'', ''ownerOf'')],
      status = [\<lparr>status_level = ''error'', status_type = ''backstage.io/catalog-processing'',
                 status_message = ''Error: NOPE'',
                 status_error = Some (JsError ''Error'' ''NOPE'' None)\<rparr>]\<rparr>"


section \<open>Properties of the patch operation\<close>

lemma push_Nil: "push [] x = [x]"
  by (simp add: push_def)

lemma push_Cons: "push (y # ys) x = y # push ys x"
  by (simp add: push_def)

text \<open>A run whose log holds no rejection went through the awaited call and on.\<close>

lemma await_fulfilled:
  assumes "await n req rest (w, log) = (res, w', log')"
    and "all_fulfilled log'"
  shows "\<exists>r w1. req w = (Inr r, w1) \<and> rest r (w1, push log (n, True)) = (res, w', log')"
  using assms
  by (auto simp: await_def all_fulfilled_def push_def split: prod.splits sum.splits)

lemma await_optional_fulfilled:
  assumes "await_optional n cb a rest (w, log) = (res, w', log')"
    and "all_fulfilled log'"
  shows "\<exists>w1. rest () (w1, log @ (case cb of None \<Rightarrow> [] | Some f \<Rightarrow> [(n, True)]))
           = (res, w', log')"
proof (cases cb)
  case None
  with assms show ?thesis by (auto simp: await_optional_def)
next
  case (Some f)
  with assms have "await n (f a) rest (w, log) = (res, w', log')"
    by (simp add: await_optional_def)
  from await_fulfilled [OF this assms(2)] Some show ?thesis by (auto simp: push_def)
qed

lemma demo_run_ok:
  "patch (demo_patch (Some callback_ok)) ((), []) =
     (fst (patch (demo_patch (Some callback_ok)) ((), [])), (),
      map (\<lambda>n. (n, True)) (nine_requests @ [SuccessCb]))"
  by (simp add: patch_def demo_patch_def demo_client_def await_def await_optional_def
      return_steps_def callback_ok_def push_def nine_requests_def Let_def)

text \<open>
  C9 (as amended). In every run of \<^verbatim>\<open>patch\<close> in which all the requests are
  fulfilled and the success callback, when one is given, returns without throwing,
  \<^verbatim>\<open>patch\<close> returns exactly eight steps, one for each of: fetch release branch,
  create temporary commit, merge, create cherry-pick commit, replace temporary commit,
  create tag object, create reference, update release, in this order (forcing the
  branch head adds none). The calls issued are the nine requests in their fixed order,
  followed by the callback when one was given: it is invoked once, after the last
  request, and never when none was given.
\<close>

theorem patch_returns_eight_steps:
  assumes run: "patch p (w, []) = (res, w', log)"
    and ok: "all_fulfilled log"
  shows "\<exists>(releaseBranch :: Branch) (tempCommit :: TempCommit) (merged :: Merge)
           (cherryPickCommit :: CherryPickCommit) (updatedReference :: Reference)
           (createdTagObject :: TagObject) (reference :: Reference) (updatedRelease :: Release).
     res = Inr
       [\<lparr>message = ''Fetched release branch '' @ quoted (branch_name releaseBranch),
         secondaryMessage = None, link = Some (links_html releaseBranch)\<rparr>,
        \<lparr>message = ''Created temporary commit'',
         secondaryMessage = Some (''with message '' @ quoted (temp_message tempCommit)),
         link = None\<rparr>,
        \<lparr>message = ''Merged temporary commit into '' @ quoted (targetCommitish (latestRelease p)),
         secondaryMessage = Some (''with message '' @ quoted (merge_commit_message merged)),
         link = Some (merge_htmlUrl merged)\<rparr>,
        \<lparr>message = ''Cherry-picked patch commit to '' @ quoted (commit_sha releaseBranch),
         secondaryMessage = Some (''with message '' @ quoted (cherry_message cherryPickCommit)),
         link = None\<rparr>,
        \<lparr>message = ''Updated reference '' @ quoted (ref updatedReference),
         secondaryMessage = None, link = None\<rparr>,
        \<lparr>message = ''Created new tag object'',
         secondaryMessage = Some (''with name '' @ quoted (tag createdTagObject)),
         link = None\<rparr>,
        \<lparr>message = ''Created new reference '' @ quoted (ref reference),
         secondaryMessage = Some (''for tag object '' @ quoted (tag createdTagObject)),
         link = None\<rparr>,
        \<lparr>message = ''Updated release '' @ quoted (release_name updatedRelease),
         secondaryMessage = Some (''with tag '' @ release_tagName updatedRelease),
         link = Some (release_htmlUrl updatedRelease)\<rparr>]
     \<and> map fst log = nine_requests @ (case successCb p of None \<Rightarrow> [] | Some f \<Rightarrow> [SuccessCb])"
  using run ok
  apply (simp only: patch_def Let_def)
  apply (drule (1) await_fulfilled, clarify)+
  apply (drule (1) await_optional_fulfilled, clarify)
  apply (simp only: return_steps_def split_conv prod.inject push_Nil push_Cons)
  apply clarify
  apply (rename_tac b w1 t w2 f w3 m w4 c w5 u w6 g w7 r w8 rel w9 w10)
  apply (rule_tac x=b in exI, rule_tac x=t in exI, rule_tac x=m in exI, rule_tac x=c in exI)
  apply (rule_tac x=u in exI, rule_tac x=g in exI, rule_tac x=r in exI, rule_tac x=rel in exI)
  apply (simp add: nine_requests_def split: option.splits)
  done

text \<open>
  The theorem at the concrete client, with a callback that returns: the log has the nine
  requests and the callback, all fulfilled, and eight steps come back.
\<close>

theorem patch_returns_eight_steps_witness:
  "all_fulfilled (map (\<lambda>n. (n, True)) (nine_requests @ [SuccessCb]))
   \<and> (\<exists>steps. fst (patch (demo_patch (Some callback_ok)) ((), [])) = Inr steps
        \<and> length steps = 8)"
proof -
  have ok: "all_fulfilled (map (\<lambda>n. (n, True)) (nine_requests @ [SuccessCb]))"
    by (simp add: all_fulfilled_def nine_requests_def)
  from patch_returns_eight_steps [OF demo_run_ok ok] obtain steps where
    "fst (patch (demo_patch (Some callback_ok)) ((), [])) = Inr steps" "length steps = 8"
    by auto
  with ok show ?thesis by blast
qed

text \<open>
  C9 as stated fails: at the concrete client every one of the nine GitHub requests is
  fulfilled, in the fixed order, and yet \<^verbatim>\<open>patch\<close> returns no list when the success
  callback throws; the awaited callback rejects the whole operation.
\<close>

theorem patch_callback_throws_counterexample:
  "all_fulfilled (api_requests (snd (snd (patch (demo_patch (Some callback_throws)) ((), [])))))
   \<and> map fst (api_requests (snd (snd (patch (demo_patch (Some callback_throws)) ((), [])))))
       = nine_requests
   \<and> fst (patch (demo_patch (Some callback_throws)) ((), [])) = Inl (ApiError ''callback'')"
  by (simp add: patch_def demo_patch_def demo_client_def await_def await_optional_def
      return_steps_def callback_throws_def push_def nine_requests_def all_fulfilled_def
      api_requests_def Let_def)

section \<open>Properties of the waiting tracker\<close>

subsection \<open>Two passes before the wait is over\<close>

lemma set_update_cases:
  "(i, c) \<in> set (AList.update k v al) \<Longrightarrow> (i = k \<and> c = v) \<or> (i, c) \<in> set al"
  by (induction al) (auto split: if_splits)

lemma counts_onDone [simp]:
  "counts (onDone item c t) = AList.update (item_id item) (c + 1) (counts t)"
  by (simp add: onDone_def resolve_promise_def Let_def split: option.splits)

lemma counts_resolve_inFlight [simp]: "counts (resolve_inFlight k t) = counts t"
  by (simp add: resolve_inFlight_def)

lemma errors_onDone [simp]: "tracker_errors (onDone item c t) = tracker_errors t"
  by (simp add: onDone_def resolve_promise_def Let_def split: option.splits)

lemma errors_resolve_inFlight [simp]: "tracker_errors (resolve_inFlight k t) = tracker_errors t"
  by (simp add: resolve_inFlight_def)

lemma promise_resolve_inFlight [simp]: "promise (resolve_inFlight k t) = promise t"
  by (simp add: resolve_inFlight_def)

lemma completed_snoc [simp]:
  "completed i (ps @ [(item, m)]) = completed i ps + (if item_id item = i then 1 else 0)"
  by (simp add: completed_def)

lemma map_filter_snoc: "List.map_filter f (xs @ [x]) = List.map_filter f xs @ (case f x of None \<Rightarrow> [] | Some y \<Rightarrow> [y])"
  by (simp add: List.map_filter_def split: option.splits)

lemma handle_bound_mono:
  "handle_bound ps h \<Longrightarrow> handle_bound (ps @ qs) h"
  by (cases h) (auto simp: completed_def intro: le_trans)

lemma completed_mono: "c \<le> completed i ps \<Longrightarrow> c \<le> completed i (ps @ qs)"
  by (simp add: completed_def)

lemma consistent_start:
  assumes "consistent (t, hs) (his, ps)" "entityRefs t = refs"
  shows "consistent (tracker_step (t, hs) (ProcessStart item)) (observe refs (his, ps) (ProcessStart item))"
proof (cases "tracked refs item")
  case False
  with assms show ?thesis
    by (auto simp: consistent_def processStart_def tracked_def map_filter_snoc
        split: option.splits)
next
  case True
  define c where "c = (case map_of (counts t) (item_id item) of None \<Rightarrow> 0 | Some c \<Rightarrow> c)"
  have c: "c \<le> completed (item_id item) ps"
    using assms(1) by (auto simp: c_def consistent_def split: option.splits dest: map_of_SomeD)
  have step: "tracker_step (t, hs) (ProcessStart item) =
      (t\<lparr>inFlight := inFlight t @ [False], counts := AList.update (item_id item) c (counts t)\<rparr>,
       hs @ [ItemTracking item c (length (inFlight t))])"
    using True assms(2) by (auto simp: processStart_def tracked_def c_def Let_def split: option.splits)
  have obs: "observe refs (his, ps) (ProcessStart item) = (his @ [Some item], ps)"
    using True by simp
  show ?thesis
    unfolding step obs using assms(1) c
    by (auto simp: consistent_def map_filter_snoc dom_update dest!: set_update_cases)
qed

lemma consistent_invoke:
  assumes "consistent (t, hs) (his, ps)"
  shows "consistent (tracker_step (t, hs) (Invoke k m)) (observe refs (his, ps) (Invoke k m))"
proof (cases "k < length hs")
  case False
  with assms show ?thesis by (auto simp: consistent_def)
next
  case k: True
  from assms have his: "his = map handle_item hs" by (simp add: consistent_def)
  show ?thesis
  proof (cases "hs ! k")
    case EmptyTracking
    with k assms show ?thesis by (cases m) (auto simp: consistent_def)
  next
    case (ItemTracking item c j)
    with k his have h: "his ! k = Some item" "k < length his" by auto
    from k ItemTracking have "ItemTracking item c j \<in> set hs" by (metis nth_mem)
    with assms have cb: "c \<le> completed (item_id item) ps"
      by (auto simp: consistent_def)
    have keys: "item_id item \<in> fst ` set (counts t)"
    proof -
      from h have "Some item \<in> set his" by (metis nth_mem)
      then have "item \<in> set (List.map_filter (\<lambda>h. h) his)"
        by (force simp: List.map_filter_def)
      with assms show ?thesis by (auto simp: consistent_def)
    qed
    have bounds: "\<forall>h \<in> set hs. handle_bound (ps @ [(item, m)]) h"
      using assms by (auto simp: consistent_def intro: handle_bound_mono)
    have cnts: "\<forall>(i, c) \<in> set (counts t). c \<le> completed i (ps @ [(item, m)])"
      using assms by (auto simp: consistent_def completed_def intro: le_trans)
    show ?thesis
    proof (cases m)
      case MarkProcessorsCompleted
      with k assms ItemTracking h show ?thesis by (auto simp: consistent_def)
    next
      case (MarkFailed e)
      with k ItemTracking h keys his bounds cnts cb assms show ?thesis
        apply (simp add: consistent_def dom_update del: completed_snoc)
        apply (auto dest!: set_update_cases)
        done
    next
      case MarkSuccessfulWithChanges
      with k ItemTracking h keys his bounds cnts cb assms show ?thesis
        apply (simp add: consistent_def dom_update resolve_inFlight_def del: completed_snoc)
        apply (auto dest!: set_update_cases)
        done
    next
      case MarkSuccessfulWithErrors
      with k ItemTracking h keys his bounds cnts cb assms show ?thesis
        apply (simp add: consistent_def dom_update del: completed_snoc)
        apply (auto dest!: set_update_cases)
        done
    next
      case MarkSuccessfulWithNoChanges
      with k ItemTracking h keys his bounds cnts cb assms show ?thesis
        apply (simp add: consistent_def dom_update del: completed_snoc)
        apply (auto dest!: set_update_cases)
        done
    qed
  qed
qed


lemma tracker_run_snoc:
  "tracker_run refs (cs @ [c]) = tracker_step (tracker_run refs cs) c"
  by (simp add: tracker_run_def)

lemma entityRefs_onDone [simp]: "entityRefs (onDone item c t) = entityRefs t"
  by (simp add: onDone_def resolve_promise_def Let_def split: option.splits)

lemma entityRefs_invoke [simp]: "entityRefs (invoke m h t) = entityRefs t"
  by (cases m; cases h) (simp_all add: resolve_inFlight_def)

lemma entityRefs_step: "entityRefs (fst (tracker_step s c)) = entityRefs (fst s)"
  by (cases s; cases c) (auto simp: processStart_def Let_def split: option.splits)

lemma entityRefs_run: "entityRefs (fst (tracker_run refs cs)) = refs"
  by (induction cs rule: rev_induct)
     (simp_all add: tracker_run_snoc entityRefs_step, simp add: tracker_run_def new_tracker_def)

lemma consistent_step:
  assumes "consistent s ob" "entityRefs (fst s) = refs"
  shows "consistent (tracker_step s c) (observe refs ob c)"
  using assms consistent_start consistent_invoke
  by (cases s; cases ob; cases c) auto

lemma consistent_run:
  "consistent (tracker_run refs cs) (foldl (observe refs) ([], []) cs)"
proof (induction cs rule: rev_induct)
  case Nil
  show ?case by (simp add: tracker_run_def new_tracker_def consistent_def List.map_filter_def)
next
  case (snoc c cs)
  from consistent_step [OF snoc entityRefs_run] show ?case
    by (simp add: tracker_run_snoc)
qed

text \<open>Every started item is behind a key of the counts, with a count its ended passes bound.\<close>

lemma counts_of_started:
  assumes "item \<in> set (started refs cs)"
  shows "\<exists>c. (item_id item, c) \<in> set (counts (fst (tracker_run refs cs)))
           \<and> c \<le> completed (item_id item) (passes refs cs)"
proof -
  obtain t hs where s: "tracker_run refs cs = (t, hs)" by (cases "tracker_run refs cs")
  obtain his ps where ob: "foldl (observe refs) ([], []) cs = (his, ps)"
    by (cases "foldl (observe refs) ([], []) cs")
  from consistent_run [of refs cs] s ob
  have keys: "fst ` set (counts t) = item_id ` set (List.map_filter (\<lambda>h. h) his)"
    and bound: "\<forall>(i, c) \<in> set (counts t). c \<le> completed i ps"
    by (auto simp: consistent_def)
  from assms ob have "item_id item \<in> item_id ` set (List.map_filter (\<lambda>h. h) his)"
    by (simp add: started_def)
  with keys obtain c where "(item_id item, c) \<in> set (counts t)" by force
  with bound s ob show ?thesis by (auto simp: passes_def)
qed

lemma promise_onDone:
  "promise (onDone item c t) =
     (case promise t of Some e \<Rightarrow> Some e
      | None \<Rightarrow> if list_all (\<lambda>c. c \<ge> 2) (map snd (AList.update (item_id item) (c + 1) (counts t)))
                then Some (tracker_errors t) else None)"
  by (simp add: onDone_def resolve_promise_def Let_def split: option.splits)

lemma promise_invoke_resolves:
  assumes "promise t = None" "promise (invoke m h t) = Some errs"
  shows "list_all (\<lambda>c. c \<ge> 2) (map snd (counts (invoke m h t)))
         \<and> errs = tracker_errors (invoke m h t)"
  using assms
  by (cases m; cases h) (auto simp: promise_onDone split: if_splits)

lemma promise_step_resolves:
  assumes "promise (fst s) = None" "promise (fst (tracker_step s c)) = Some errs"
  shows "list_all (\<lambda>c. c \<ge> 2) (map snd (counts (fst (tracker_step s c))))
         \<and> errs = tracker_errors (fst (tracker_step s c))"
proof (cases s)
  case (Pair t hs)
  show ?thesis
  proof (cases c)
    case (ProcessStart item)
    with Pair assms show ?thesis
      by (auto simp: processStart_def Let_def split: if_splits option.splits)
  next
    case (Invoke k m)
    with Pair assms promise_invoke_resolves show ?thesis
      by (auto split: if_splits)
  qed
qed

lemma promise_invoke_stays: "promise t = Some e \<Longrightarrow> promise (invoke m h t) = Some e"
  by (cases m; cases h) (auto simp: promise_onDone)

lemma promise_step_stays:
  "promise (fst s) = Some e \<Longrightarrow> promise (fst (tracker_step s c)) = Some e"
  by (cases s; cases c) (auto simp: processStart_def Let_def promise_invoke_stays split: option.splits)

lemma resolution_point:
  assumes "promise (fst (tracker_run refs cs)) = Some errs"
  shows "\<exists>pre c post. cs = pre @ c # post
           \<and> promise (fst (tracker_run refs pre)) = None
           \<and> promise (fst (tracker_run refs (pre @ [c]))) = Some errs"
  using assms
proof (induction cs rule: rev_induct)
  case Nil
  then show ?case by (simp add: tracker_run_def new_tracker_def)
next
  case (snoc c cs)
  show ?case
  proof (cases "promise (fst (tracker_run refs cs))")
    case None
    with snoc.prems show ?thesis by blast
  next
    case (Some e)
    from promise_step_stays [OF Some, of c] snoc.prems have "e = errs"
      by (simp add: tracker_run_snoc)
    with Some snoc.IH obtain pre c' post where "cs = pre @ c' # post"
      "promise (fst (tracker_run refs pre)) = None"
      "promise (fst (tracker_run refs (pre @ [c']))) = Some errs" by blast
    then have "cs @ [c] = pre @ c' # (post @ [c])" by simp
    with \<open>promise (fst (tracker_run refs pre)) = None\<close>
      \<open>promise (fst (tracker_run refs (pre @ [c']))) = Some errs\<close>
    show ?thesis by blast
  qed
qed

lemma two_passes_at_resolution:
  assumes "promise (fst (tracker_run refs pre)) = None"
    and "promise (fst (tracker_run refs (pre @ [c]))) = Some errs"
    and "item \<in> set (started refs (pre @ [c]))"
  shows "2 \<le> completed (item_id item) (passes refs (pre @ [c]))"
proof -
  from promise_step_resolves [of "tracker_run refs pre" c errs] assms(1,2)
  have all: "list_all (\<lambda>c. c \<ge> 2) (map snd (counts (fst (tracker_run refs (pre @ [c])))))"
    by (simp add: tracker_run_snoc)
  from counts_of_started [OF assms(3)] obtain n where
    n: "(item_id item, n) \<in> set (counts (fst (tracker_run refs (pre @ [c]))))"
       "n \<le> completed (item_id item) (passes refs (pre @ [c]))" by blast
  from all n(1) have "2 \<le> n" by (force simp: list_all_iff)
  with n(2) show ?thesis by simp
qed


text \<open>What a call on the tracking object of one item leaves alone.\<close>

lemma inFlight_onDone [simp]: "inFlight (onDone item c t) = inFlight t"
  by (simp add: onDone_def resolve_promise_def Let_def split: option.splits)

lemma invoke_other_counts:
  "i \<noteq> item_id item \<Longrightarrow>
     map_of (counts (invoke m (ItemTracking item n j) t)) i = map_of (counts t) i"
  by (cases m) (simp_all add: update_conv')

lemma invoke_other_errors:
  "r \<noteq> entityRef item \<Longrightarrow>
     map_of (tracker_errors (invoke m (ItemTracking item n j) t)) r = map_of (tracker_errors t) r"
  by (cases m) (simp_all add: update_conv' delete_conv' resolve_inFlight_def)

lemma invoke_other_inFlight:
  "k \<noteq> j \<Longrightarrow> inFlight (invoke m (ItemTracking item n j) t) ! k = inFlight t ! k"
  by (cases m) (simp_all add: resolve_inFlight_def)

lemma processStart_other_counts:
  "i \<noteq> item_id item \<Longrightarrow> map_of (counts (snd (processStart item t))) i = map_of (counts t) i"
  by (auto simp: processStart_def Let_def update_conv' split: option.splits)

lemma processStart_errors:
  "tracker_errors (snd (processStart item t)) = tracker_errors t"
  by (auto simp: processStart_def Let_def split: option.splits)

lemma processStart_other_inFlight:
  "k < length (inFlight t) \<Longrightarrow> inFlight (snd (processStart item t)) ! k = inFlight t ! k"
  by (auto simp: processStart_def Let_def nth_append split: option.splits)

lemma process_SomeD:
  "process refs cs = Some errs \<Longrightarrow> promise (fst (tracker_run refs cs)) = Some errs"
  by (auto simp: process_def wait_def Let_def split: option.splits if_splits)

lemma two_quiet_passes_run:
  "process None two_quiet_passes = Some []"
  by (simp add: process_def two_quiet_passes_def tracker_run_def new_tracker_def processStart_def
      demo_item_def onDone_def resolve_promise_def resolve_inFlight_def wait_def waitForFinish_def
      Let_def)

lemma two_quiet_passes_inFlight:
  "length (inFlight (fst (tracker_run None two_quiet_passes))) = 2"
  by (simp add: two_quiet_passes_def tracker_run_def new_tracker_def processStart_def
      demo_item_def onDone_def resolve_promise_def resolve_inFlight_def Let_def)

text \<open>
  C8 (as amended). When \<^verbatim>\<open>process\<close> returns, its \<^verbatim>\<open>wait()\<close> was resolved by one
  call of the engine, and at that call every item that \<^bold>\<open>had been started\<close> under the tracker
  had ended at least two passes; \<^verbatim>\<open>wait()\<close> was pending before that call. A member of
  the tracked set that has not been started is not waited for. Tracking one item does not
  touch another: a call on the tracking object of one item, and the start of an item,
  leave the counts of the other ids, the errors of the other entity references and the
  other in-flight promises as they were.
\<close>

theorem process_blocks_for_two_passes:
  "(process refs cs = Some errs \<longrightarrow>
      (\<exists>pre c post. cs = pre @ c # post
         \<and> wait (fst (tracker_run refs pre)) = None
         \<and> wait (fst (tracker_run refs (pre @ [c]))) = Some errs
         \<and> (\<forall>item \<in> set (started refs (pre @ [c])).
               2 \<le> completed (item_id item) (passes refs (pre @ [c])))))
   \<and> (\<forall>i. i \<noteq> item_id item \<longrightarrow>
          map_of (counts (invoke m (ItemTracking item n j) t)) i = map_of (counts t) i
          \<and> map_of (counts (snd (processStart item t))) i = map_of (counts t) i)
   \<and> (\<forall>r. r \<noteq> entityRef item \<longrightarrow>
          map_of (tracker_errors (invoke m (ItemTracking item n j) t)) r = map_of (tracker_errors t) r
          \<and> map_of (tracker_errors (snd (processStart item t))) r = map_of (tracker_errors t) r)
   \<and> (\<forall>k. k \<noteq> j \<and> k < length (inFlight t) \<longrightarrow>
          inFlight (invoke m (ItemTracking item n j) t) ! k = inFlight t ! k
          \<and> inFlight (snd (processStart item t)) ! k = inFlight t ! k)"
proof (intro conjI impI allI)
  assume "process refs cs = Some errs"
  then have "promise (fst (tracker_run refs cs)) = Some errs" by (rule process_SomeD)
  from resolution_point [OF this] obtain pre c post where p: "cs = pre @ c # post"
    "promise (fst (tracker_run refs pre)) = None"
    "promise (fst (tracker_run refs (pre @ [c]))) = Some errs" by blast
  from two_passes_at_resolution [OF p(2,3)]
  have "\<forall>item \<in> set (started refs (pre @ [c])).
          2 \<le> completed (item_id item) (passes refs (pre @ [c]))" by blast
  with p show "\<exists>pre c post. cs = pre @ c # post
         \<and> wait (fst (tracker_run refs pre)) = None
         \<and> wait (fst (tracker_run refs (pre @ [c]))) = Some errs
         \<and> (\<forall>item \<in> set (started refs (pre @ [c])).
               2 \<le> completed (item_id item) (passes refs (pre @ [c])))"
    unfolding wait_def by blast
qed (simp_all add: invoke_other_counts invoke_other_errors invoke_other_inFlight
      processStart_other_counts processStart_errors processStart_other_inFlight)

text \<open>
  The theorem at two quiet passes of the item \<open>a\<close>, and at a call for the item \<open>b\<close>.
\<close>

theorem process_blocks_for_two_passes_witness:
  "process None two_quiet_passes = Some []
   \<and> (\<exists>pre c post. two_quiet_passes = pre @ c # post
         \<and> wait (fst (tracker_run None pre)) = None
         \<and> wait (fst (tracker_run None (pre @ [c]))) = Some []
         \<and> (\<forall>item \<in> set (started None (pre @ [c])).
               2 \<le> completed (item_id item) (passes None (pre @ [c]))))
   \<and> ''id-a'' \<noteq> item_id (demo_item ''b'')
   \<and> map_of (counts (invoke MarkSuccessfulWithChanges (ItemTracking (demo_item ''b'') 0 1)
         (fst (tracker_run None two_quiet_passes)))) ''id-a''
       = map_of (counts (fst (tracker_run None two_quiet_passes))) ''id-a''
   \<and> ''component:default/a'' \<noteq> entityRef (demo_item ''b'')
   \<and> map_of (tracker_errors (invoke MarkSuccessfulWithChanges (ItemTracking (demo_item ''b'') 0 1)
         (fst (tracker_run None two_quiet_passes)))) ''component:default/a''
       = map_of (tracker_errors (fst (tracker_run None two_quiet_passes))) ''component:default/a''
   \<and> (0::nat) \<noteq> 1 \<and> 0 < length (inFlight (fst (tracker_run None two_quiet_passes)))
   \<and> inFlight (invoke MarkSuccessfulWithChanges (ItemTracking (demo_item ''b'') 0 1)
         (fst (tracker_run None two_quiet_passes))) ! 0
       = inFlight (fst (tracker_run None two_quiet_passes)) ! 0"
proof -
  have a: "''id-a'' \<noteq> item_id (demo_item ''b'')"
    and b: "''component:default/a'' \<noteq> entityRef (demo_item ''b'')"
    by (simp_all add: demo_item_def)
  have c: "(0::nat) \<noteq> 1 \<and> 0 < length (inFlight (fst (tracker_run None two_quiet_passes)))"
    by (simp add: two_quiet_passes_inFlight)
  from process_blocks_for_two_passes [where refs = None and cs = two_quiet_passes
      and errs = "[]" and item = "demo_item ''b''" and m = MarkSuccessfulWithChanges
      and n = 0 and j = 1 and t = "fst (tracker_run None two_quiet_passes)"]
    two_quiet_passes_run a b c
  show ?thesis by blast
qed

text \<open>
  C8 as stated fails: with the tracked set \<open>{a, b}\<close>, two quiet passes of \<open>a\<close> make
  \<^verbatim>\<open>process\<close> return although the other member of the set, \<open>b\<close>, has not ended a
  single pass: \<^verbatim>\<open>#counts\<close> has no entry for an item that was never started.
\<close>

theorem process_returns_early_counterexample:
  "process (Some {''component:default/a'', ''component:default/b''}) two_quiet_passes = Some []
   \<and> ''component:default/b'' \<in> {''component:default/a'', ''component:default/b''}
   \<and> completed_ref ''component:default/b''
        (passes (Some {''component:default/a'', ''component:default/b''}) two_quiet_passes) = 0"
  by (simp add: process_def two_quiet_passes_def tracker_run_def new_tracker_def processStart_def
      demo_item_def onDone_def resolve_promise_def resolve_inFlight_def wait_def waitForFinish_def
      Let_def completed_ref_def passes_def tracked_def)

subsection \<open>Counted passes and the record of errors\<close>





























section \<open>Contracts of the store and the stitcher\<close>

lemma stringifyEntityRef_mkEntity_b: "stringifyEntityRef (mkEntity ''b'') = ''component:default/b''"
  by (simp add: stringifyEntityRef_def mkEntity_def lower_char_def)

lemma store_b_item: "find_item ''component:default/b'' store_b = Some item_b"
  by (simp add: store_b_def setInputEntities_def applyMutation_full_def claim_all_def
      upsertItem_def find_item_def empty_store_def item_b_def stringifyEntityRef_mkEntity_b)

lemma find_item_claims [simp]: "find_item r (st\<lparr>claims := x\<rparr>) = find_item r st"
  by (simp add: find_item_def)

text \<open>
  C4. When the stored item of a reference has a non-null location key, a mutation for the
  reference that carries a different location key is rejected, and the store, and with it
  every field of the item, is what it was. The same holds for a full mutation of a
  provider that brings such an entity.
\<close>

theorem conflicting_mutation_rejected:
  assumes "find_item r st = Some item" and "locationKey item = Some l1" and "l2 \<noteq> l1"
  shows "upsertItem r raw (Some l2) st = (Rejected, st)
         \<and> find_item r (snd (upsertItem r raw (Some l2) st)) = Some item
         \<and> (stringifyEntityRef e = r \<longrightarrow>
              find_item r (applyMutation_full provider [(e, Some l2)] st) = Some item)"
proof -
  from assms have rej: "upsertItem r raw (Some l2) st = (Rejected, st)" for raw
    by (simp add: upsertItem_def)
  with assms(1) show ?thesis
    by (auto simp: applyMutation_full_def claim_all_def)
qed

text \<open>The theorem at the store that holds \<open>b\<close> under \<^verbatim>\<open>loc\<close>, and the key \<^verbatim>\<open>other\<close>.\<close>

theorem conflicting_mutation_rejected_witness:
  "find_item ''component:default/b'' store_b = Some item_b
   \<and> locationKey item_b = Some ''loc'' \<and> ''other'' \<noteq> ''loc''
   \<and> upsertItem ''component:default/b'' (mkEntity ''b'') (Some ''other'') store_b = (Rejected, store_b)
   \<and> stringifyEntityRef (mkEntity ''b'') = ''component:default/b''
   \<and> find_item ''component:default/b''
        (applyMutation_full ''test'' [(mkEntity ''b'', Some ''other'')] store_b) = Some item_b"
proof -
  have k: "locationKey item_b = Some ''loc''" and n: "''other'' \<noteq> ''loc''"
    by (simp_all add: item_b_def)
  from conflicting_mutation_rejected [OF store_b_item k n, of "mkEntity ''b''" "mkEntity ''b''" "''test''"]
    store_b_item k n stringifyEntityRef_mkEntity_b
  show ?thesis by blast
qed

lemma find_item_materialized [simp]:
  "find_item r (st\<lparr>materialized := x\<rparr>) = find_item r st"
  by (simp add: find_item_def)

lemma incoming_materialized [simp]:
  "incoming r (st\<lparr>materialized := x\<rparr>) = incoming r st"
  by (simp add: incoming_def)

lemma materialize_materialized [simp]:
  "materialize r (st\<lparr>materialized := x\<rparr>) = materialize r st"
  by (simp add: materialize_def cong: option.case_cong)

lemma materialize_stitch [simp]: "materialize r (stitch r' st) = materialize r st"
  by (simp add: stitch_def split: option.splits)

lemma stitch_idem: "stitch r (stitch r st) = stitch r st"
  by (cases "materialize r st") (simp_all add: stitch_def AList.delete_idem)

lemma materialize_cong:
  "find_item r st' = find_item r st \<Longrightarrow> incoming r st' = incoming r st \<Longrightarrow>
     materialize r st' = materialize r st"
  by (simp add: materialize_def split: option.splits)

lemma stitched_entry: "map_of (materialized (stitch r st)) r = materialize r st"
  by (cases "materialize r st") (simp_all add: stitch_def update_conv' delete_conv')


text \<open>
  C6. Stitching a reference twice in succession gives the store that stitching it once
  gives. What stitching leaves for the reference is the entity materialized from the
  item and the incoming edges; so a second stitch, at a store in which the item of the
  reference and the edges that come in to it are what they were, leaves the same
  materialized entity.
\<close>

theorem stitch_idempotent:
  "stitch r (stitch r st) = stitch r st
   \<and> map_of (materialized (stitch r st)) r = materialize r st
   \<and> (find_item r st' = find_item r st \<and> incoming r st' = incoming r st \<longrightarrow>
        map_of (materialized (stitch r st')) r = map_of (materialized (stitch r st)) r)"
proof (intro conjI impI)
  show "stitch r (stitch r st) = stitch r st" by (rule stitch_idem)
  show "map_of (materialized (stitch r st)) r = materialize r st" by (rule stitched_entry)
  assume "find_item r st' = find_item r st \<and> incoming r st' = incoming r st"
  then have "materialize r st' = materialize r st" by (intro materialize_cong) simp_all
  then show "map_of (materialized (stitch r st')) r = map_of (materialized (stitch r st)) r"
    by (simp add: stitched_entry)
qed

lemma stitched_b: "materialize ''component:default/b'' store_ab = Some materialized_b"
  by (simp add: materialize_def find_item_def store_ab_def item_a_done_def item_b_done_def
      incoming_def mark_orphan_def status_of_error_def materialized_b_def mkEntity_def)

lemma later_item_b:
  "find_item ''component:default/b'' store_ab_later = find_item ''component:default/b'' store_ab"
  by (simp add: store_ab_later_def stitch_def update_item_def find_item_def store_ab_def
      item_a_done_def item_b_done_def split: option.splits)

lemma later_incoming_b:
  "incoming ''component:default/b'' store_ab_later = incoming ''component:default/b'' store_ab"
  by (simp add: store_ab_later_def stitch_def update_item_def incoming_def store_ab_def
      split: option.splits)

text \<open>
  The theorem at the store in which \<open>b\<close> has been processed, and at that store some time
  after \<open>b\<close> was stitched. The first stitch writes the materialized entity of \<open>b\<close>: its
  output with the orphan marker, the relation that comes in from \<open>a\<close>, and the status item
  of its error. The second stitch, at the later store, leaves that same entity.
\<close>

theorem stitch_idempotent_witness:
  "find_item ''component:default/b'' store_ab_later = find_item ''component:default/b'' store_ab
   \<and> incoming ''component:default/b'' store_ab_later = incoming ''component:default/b'' store_ab
   \<and> map_of (materialized store_ab) ''component:default/b'' = None
   \<and> map_of (materialized (stitch ''component:default/b'' store_ab)) ''component:default/b''
       = Some materialized_b
   \<and> map_of (materialized (stitch ''component:default/b'' store_ab_later)) ''component:default/b''
       = Some materialized_b
   \<and> stitch ''component:default/b'' (stitch ''component:default/b'' store_ab)
       = stitch ''component:default/b'' store_ab"
proof -
  have e: "map_of (materialized store_ab) ''component:default/b'' = None"
    by (simp add: store_ab_def)
  from stitch_idempotent [of "''component:default/b''" store_ab store_ab_later]
    later_item_b later_incoming_b stitched_b e
  show ?thesis by simp
qed

end
